theory Spec2Isabelle
  imports Main
begin

section \<open>The declarations of network.h\<close>

text \<open>
  \<^verbatim>\<open>include/tiny-cuda-nn/network.h\<close> declares an enumeration, an abstract class template
  with one pure virtual method, and two free functions. The declarations are embedded as
  data (types, parameter lists, class members), so that statements about what the header
  declares are statements about these values.
\<close>

subsection \<open>Enumerations\<close>

text \<open>\<^verbatim>\<open>enum class WeightUsage { Inference, Forward, Backward, };\<close> (lines 41 to 45).\<close>

datatype WeightUsage = Inference | Forward | Backward

text \<open>
  Modelled from the spec: \<^verbatim>\<open>MatrixLayout\<close> is declared in common.h, which is not among
  the sources; the spec gives it as the closed set of RowMajor and ColumnMajor.
\<close>

datatype MatrixLayout = RowMajor | ColumnMajor

subsection \<open>Matrix views\<close>

text \<open>
  Modelled from the spec: \<^verbatim>\<open>GPUMatrix\<close> is declared outside network.h; the spec
  describes it as a view of an externally owned two-dimensional buffer that declares its
  dimensions. The view is a device pointer with a row and a column count; its element
  type and its layout are template arguments, kept in the static type below.
\<close>

record GPUMatrix =
  m_data :: nat
  m_rows :: nat
  m_cols :: nat

subsection \<open>Types, arguments and parameters\<close>

text \<open>
  The C++ types the header mentions. The element type \<^verbatim>\<open>T\<close> is a template parameter:
  a value of the type variable \<open>'t\<close> names it.
\<close>

datatype 't cpp_type =
    T_cudaStream
  | T_GPUMatrix 't MatrixLayout
  | T_MatrixLayout
  | T_WeightUsage
  | T_DifferentiableObject 't 't

text \<open>An argument expression at a call site, with the value it denotes.\<close>

datatype 't argument =
    Stream nat
  | Matrix 't MatrixLayout GPUMatrix
  | Layout MatrixLayout
  | Usage WeightUsage

fun type_of :: "'t argument \<Rightarrow> 't cpp_type" where
  "type_of (Stream s) = T_cudaStream"
| "type_of (Matrix T l M) = T_GPUMatrix T l"
| "type_of (Layout l) = T_MatrixLayout"
| "type_of (Usage u) = T_WeightUsage"

datatype passing = by_value | by_const_reference | by_reference

record 't parameter =
  p_name :: string
  p_type :: "'t cpp_type"
  p_pass :: passing
  p_default :: "'t argument option"

text \<open>
  Line 52:
  \<^verbatim>\<open>virtual void inference_mixed_precision(cudaStream_t stream,
      const GPUMatrix<T, MatrixLayout::ColumnMajor>& input,
      GPUMatrix<T, MatrixLayout::ColumnMajor>& output,
      MatrixLayout output_layout = MatrixLayout::ColumnMajor) = 0;\<close>
\<close>

definition inference_mixed_precision_params :: "'t \<Rightarrow> 't parameter list" where
  "inference_mixed_precision_params T =
    [\<lparr>p_name = ''stream'', p_type = T_cudaStream, p_pass = by_value, p_default = None\<rparr>,
     \<lparr>p_name = ''input'', p_type = T_GPUMatrix T ColumnMajor, p_pass = by_const_reference,
      p_default = None\<rparr>,
     \<lparr>p_name = ''output'', p_type = T_GPUMatrix T ColumnMajor, p_pass = by_reference,
      p_default = None\<rparr>,
     \<lparr>p_name = ''output_layout'', p_type = T_MatrixLayout, p_pass = by_value,
      p_default = Some (Layout ColumnMajor)\<rparr>]"

text \<open>
  Binding the arguments of a call to a parameter list: each argument must have the
  parameter's type (the header declares no conversion), a parameter without an argument
  takes its default, and a call with too many or too few arguments is ill-formed.
\<close>

fun bind_arguments :: "'t parameter list \<Rightarrow> 't argument list \<Rightarrow> 't argument list option" where
  "bind_arguments [] [] = Some []"
| "bind_arguments [] (a # as) = None"
| "bind_arguments (p # ps) [] =
     (case p_default p of
        None \<Rightarrow> None
      | Some d \<Rightarrow> map_option ((#) d) (bind_arguments ps []))"
| "bind_arguments (p # ps) (a # as) =
     (if type_of a = p_type p then map_option ((#) a) (bind_arguments ps as) else None)"

subsection \<open>The class template Network\<close>

datatype 't member =
    destructor
  | pure_virtual_method string "'t parameter list"
  | data_member string "'t cpp_type"

record 't class_decl =
  base_class :: "'t cpp_type"
  members :: "'t member list"

text \<open>
  Lines 47 to 53:
  \<^verbatim>\<open>template <typename T> class Network : public DifferentiableObject<T, T> {
  public: virtual ~Network() { }  virtual void inference_mixed_precision(...) = 0; };\<close>
\<close>

definition Network :: "'t \<Rightarrow> 't class_decl" where
  "Network T =
    \<lparr>base_class = T_DifferentiableObject T T,
     members = [destructor,
       pure_virtual_method ''inference_mixed_precision'' (inference_mixed_precision_params T)]\<rparr>"

text \<open>
  Modelled from the spec: \<^verbatim>\<open>DifferentiableObject\<close> is declared in object.h, which is
  not among the sources; the spec names its two template arguments the compute type and
  the parameter and gradient type.
\<close>

fun compute_type :: "'t cpp_type \<Rightarrow> 't option" where
  "compute_type (T_DifferentiableObject C P) = Some C"
| "compute_type _ = None"

fun params_type :: "'t cpp_type \<Rightarrow> 't option" where
  "params_type (T_DifferentiableObject C P) = Some P"
| "params_type _ = None"

fun data_members :: "'t member list \<Rightarrow> (string \<times> 't cpp_type) list" where
  "data_members [] = []"
| "data_members (data_member n ty # ms) = (n, ty) # data_members ms"
| "data_members (m # ms) = data_members ms"

fun method_params :: "'t member list \<Rightarrow> 't parameter list" where
  "method_params [] = []"
| "method_params (pure_virtual_method n ps # ms) = ps @ method_params ms"
| "method_params (m # ms) = method_params ms"

section \<open>Behaviour behind the declarations\<close>

text \<open>
  network.h declares \<^verbatim>\<open>inference_mixed_precision\<close> pure virtual and gives
  \<^verbatim>\<open>create_network\<close> and \<^verbatim>\<open>cutlass_free_workspace\<close> no body: the code that runs is
  in translation units that are not among the sources. Their behaviour is modelled from
  the spec's contract, with the concrete architecture as a parameter.
\<close>

text \<open>
  Modelled from the spec: the error taxonomy of its section 7. A ConfigurationError
  carries the offending key and the reason, a DimensionMismatchError the expected and
  the actual dimension.
\<close>

datatype error =
    ConfigurationError string string
  | DimensionMismatchError nat nat
  | AcceleratorFailure

subsection \<open>Mixed-precision inference\<close>

type_synonym 'a device_memory = "nat \<Rightarrow> 'a"

text \<open>
  Modelled from the spec: a Network instance owns its parameter and gradient storage and
  the scratch state its variant needs, and declares an input and an output width. The
  forward evaluation of the concrete variant is the field \<open>evaluate\<close> (parameters, one
  input column, output row), and \<open>activations\<close> is what the variant caches per column.
\<close>

record 'a Network_instance =
  n_input_dims :: nat
  n_output_dims :: nat
  params :: "'a list"
  gradients :: "'a list"
  scratch :: "'a list"
  evaluate :: "'a list \<Rightarrow> 'a list \<Rightarrow> nat \<Rightarrow> 'a"
  activations :: "'a list \<Rightarrow> 'a list \<Rightarrow> 'a list"

text \<open>
  Modelled from the spec: a matrix declares element count = width times batch; these are
  the device addresses the view covers.
\<close>

definition buffer :: "GPUMatrix \<Rightarrow> nat set" where
  "buffer M = {m_data M ..< m_data M + m_rows M * m_cols M}"

text \<open>
  Modelled from the spec: how the elements of a two-dimensional buffer map to linear
  memory. The offset of element (row i, column j) of an m by n matrix in each layout.
\<close>

fun element_index :: "MatrixLayout \<Rightarrow> nat \<Rightarrow> nat \<Rightarrow> nat \<Rightarrow> nat \<Rightarrow> nat" where
  "element_index ColumnMajor m n i j = i + j * m"
| "element_index RowMajor m n i j = j + i * n"

text \<open>Modelled from the spec: column j of a ColumnMajor view, read from device memory.\<close>

definition column :: "'a device_memory \<Rightarrow> GPUMatrix \<Rightarrow> nat \<Rightarrow> 'a list" where
  "column mem M j = map (\<lambda>i. mem (m_data M + element_index ColumnMajor (m_rows M) (m_cols M) i j))
     [0..<m_rows M]"

text \<open>
  Modelled from the spec: the forward evaluation of every batch column, each result
  stored at its place in the requested layout. The writes are (address, value) pairs.
\<close>

definition output_writes ::
  "'a Network_instance \<Rightarrow> 'a device_memory \<Rightarrow> GPUMatrix \<Rightarrow> GPUMatrix \<Rightarrow> MatrixLayout
    \<Rightarrow> (nat \<times> 'a) list" where
  "output_writes net mem input output output_layout =
     concat (map (\<lambda>j. map (\<lambda>i.
         (m_data output + element_index output_layout (m_rows output) (m_cols output) i j,
          evaluate net (params net) (column mem input j) i))
       [0..<m_rows output]) [0..<m_cols output])"

text \<open>Modelled from the spec: the writes take effect on device memory one after the other.\<close>

definition apply_writes :: "(nat \<times> 'a) list \<Rightarrow> 'a device_memory \<Rightarrow> 'a device_memory" where
  "apply_writes ws mem = fold (\<lambda>(a, v) m. m(a := v)) ws mem"

text \<open>
  Modelled from the spec: \<^verbatim>\<open>inference_mixed_precision(stream, input, output,
  output_layout)\<close>. A width or batch-size mismatch is reported as a
  DimensionMismatchError (expected, actual) before anything is written; otherwise the
  output is written in the requested layout and the variant's scratch state is renewed.
  The call returns nothing: its result is the new instance state and device memory.
\<close>

definition inference_mixed_precision ::
  "'a Network_instance \<Rightarrow> nat \<Rightarrow> GPUMatrix \<Rightarrow> GPUMatrix \<Rightarrow> MatrixLayout \<Rightarrow> 'a device_memory
    \<Rightarrow> error + ('a Network_instance \<times> 'a device_memory)" where
  "inference_mixed_precision net stream input output output_layout mem =
     (if m_rows input \<noteq> n_input_dims net
        then Inl (DimensionMismatchError (n_input_dims net) (m_rows input))
      else if m_rows output \<noteq> n_output_dims net
        then Inl (DimensionMismatchError (n_output_dims net) (m_rows output))
      else if m_cols output \<noteq> m_cols input
        then Inl (DimensionMismatchError (m_cols input) (m_cols output))
      else Inr
        (net\<lparr>scratch :=
            concat (map (\<lambda>j. activations net (params net) (column mem input j))
              [0..<m_cols input])\<rparr>,
         apply_writes (output_writes net mem input output output_layout) mem))"

subsection \<open>The workspace lifecycle function\<close>

text \<open>
  Modelled from the spec: the process-wide scratch pool. \<open>live\<close> holds the handles of
  the accelerator allocations that exist, \<open>workspaces\<close> the scratch allocations
  attributed to each stream.
\<close>

record device =
  live :: "nat list"
  workspaces :: "nat \<Rightarrow> nat list"

text \<open>
  Modelled from the spec: releasing an allocation. One that is not live has been freed
  before: a double free, which is an accelerator failure.
\<close>

definition cuda_free :: "nat \<Rightarrow> device \<Rightarrow> error + device" where
  "cuda_free a dev =
     (if a \<in> set (live dev) then Inr (dev\<lparr>live := removeAll a (live dev)\<rparr>)
      else Inl AcceleratorFailure)"

fun free_all :: "nat list \<Rightarrow> device \<Rightarrow> error + device" where
  "free_all [] dev = Inr dev"
| "free_all (a # as) dev =
     (case cuda_free a dev of Inl e \<Rightarrow> Inl e | Inr dev' \<Rightarrow> free_all as dev')"

text \<open>
  Modelled from the spec: \<^verbatim>\<open>cutlass_free_workspace(stream)\<close> frees every scratch
  allocation attributed to the stream and leaves none attributed to it.
\<close>

definition cutlass_free_workspace :: "nat \<Rightarrow> device \<Rightarrow> error + device" where
  "cutlass_free_workspace stream dev =
     (case free_all (workspaces dev stream) dev of
        Inl e \<Rightarrow> Inl e
      | Inr dev' \<Rightarrow> Inr (dev'\<lparr>workspaces := (workspaces dev')(stream := [])\<rparr>))"

text \<open>
  Modelled from the spec: the scratch attributed to a stream is sound when it consists of
  live allocations, each listed once.
\<close>

definition workspace_ok :: "device \<Rightarrow> nat \<Rightarrow> bool" where
  "workspace_ok dev stream =
     (distinct (workspaces dev stream) \<and> set (workspaces dev stream) \<subseteq> set (live dev))"

subsection \<open>The factory\<close>

text \<open>
  Modelled from the spec: a configuration document is a nested mapping of string keys to
  strings, numbers, booleans, mappings and arrays.
\<close>

datatype json =
    JString string
  | JNumber int
  | JBool bool
  | JObject "(string \<times> json) list"
  | JArray "json list"

text \<open>
  Modelled from the spec: the architectures are not enumerated by the core. Each entry of
  the registry names its required hyperparameters, a check for invalid combinations
  (the offending key and the reason) and its constructor.
\<close>

record 'a architecture =
  required_keys :: "string list"
  invalid_combination :: "(string \<times> json) list \<Rightarrow> (string \<times> string) option"
  construct :: "(string \<times> json) list \<Rightarrow> 'a Network_instance"

text \<open>
  Modelled from the spec: a successful construction allocates the instance's storage on
  the accelerator, under a fresh handle.
\<close>

definition allocate :: "device \<Rightarrow> device" where
  "allocate dev = dev\<lparr>live := Suc (fold max (live dev) 0) # live dev\<rparr>"

text \<open>
  Modelled from the spec: \<^verbatim>\<open>create_network(network)\<close>. The architecture tag is the key
  \<^verbatim>\<open>otype\<close>. Every check precedes the allocation; the result pairs the outcome with
  the state of the accelerator.
\<close>

definition create_network ::
  "(string \<times> 'a architecture) list \<Rightarrow> (string \<times> json) list \<Rightarrow> device
    \<Rightarrow> (error + 'a Network_instance) \<times> device" where
  "create_network registry network dev =
     (case map_of network ''otype'' of
        None \<Rightarrow> (Inl (ConfigurationError ''otype'' ''missing architecture tag''), dev)
      | Some (JString tag) \<Rightarrow>
          (case map_of registry tag of
             None \<Rightarrow> (Inl (ConfigurationError ''otype'' (''unrecognized architecture '' @ tag)), dev)
           | Some arch \<Rightarrow>
               (case find (\<lambda>k. map_of network k = None) (required_keys arch) of
                  Some k \<Rightarrow> (Inl (ConfigurationError k ''missing required hyperparameter''), dev)
                | None \<Rightarrow>
                    (case invalid_combination arch network of
                       Some (k, reason) \<Rightarrow> (Inl (ConfigurationError k reason), dev)
                     | None \<Rightarrow> (Inr (construct arch network), allocate dev))))
      | Some _ \<Rightarrow> (Inl (ConfigurationError ''otype'' ''architecture tag is not a string''), dev))"

section \<open>Auxiliary definitions and example data\<close>

text \<open>The element offsets of an m by n matrix, in the order the columns are evaluated.\<close>

definition offsets :: "MatrixLayout \<Rightarrow> nat \<Rightarrow> nat \<Rightarrow> nat list" where
  "offsets l m n = concat (map (\<lambda>j. map (\<lambda>i. element_index l m n i j) [0..<m]) [0..<n])"

text \<open>
  A two-by-two linear variant over the integers, device memory holding 1, 2, 3, 4 at the
  addresses 0 to 3, an input view on them, and an output view on the addresses 4 to 7.
\<close>

definition example_net :: "int Network_instance" where
  "example_net =
    \<lparr>n_input_dims = 2, n_output_dims = 2, params = [3, 5], gradients = [0, 0], scratch = [],
     evaluate = (\<lambda>p x i. (p ! i) * sum_list x),
     activations = (\<lambda>p x. x)\<rparr>"

definition example_memory :: "int device_memory" where
  "example_memory = (\<lambda>a. if a < 4 then int a + 1 else 0)"

definition example_input :: GPUMatrix where
  "example_input = \<lparr>m_data = 0, m_rows = 2, m_cols = 2\<rparr>"

definition example_output :: GPUMatrix where
  "example_output = \<lparr>m_data = 4, m_rows = 2, m_cols = 2\<rparr>"

text \<open>
  A device with four live allocations, two of them scratch of stream 0 and one scratch of
  stream 1; a registry with one architecture; and four configuration documents.
\<close>

definition example_device :: device where
  "example_device =
    \<lparr>live = [1, 2, 3, 5], workspaces = (\<lambda>s. if s = 0 then [1, 2] else if s = 1 then [5] else [])\<rparr>"

definition example_architecture :: "int architecture" where
  "example_architecture =
      \<lparr>required_keys = [''n_input_dims'', ''n_output_dims'', ''n_neurons'', ''n_hidden_layers''],
       invalid_combination = (\<lambda>cfg.
         if map_of cfg ''n_neurons'' \<in> {Some (JNumber 16), Some (JNumber 32), Some (JNumber 64),
              Some (JNumber 128)}
         then None else Some (''n_neurons'', ''unsupported layer width'')),
       construct = (\<lambda>cfg. example_net)\<rparr>"

definition example_registry :: "(string \<times> int architecture) list" where
  "example_registry = [(''FullyFusedMLP'', example_architecture)]"

definition unknown_config :: "(string \<times> json) list" where
  "unknown_config = [(''otype'', JString ''DoesNotExist'')]"

definition incomplete_config :: "(string \<times> json) list" where
  "incomplete_config =
    [(''otype'', JString ''FullyFusedMLP''), (''n_input_dims'', JNumber 2),
     (''n_output_dims'', JNumber 2), (''n_neurons'', JNumber 64)]"

definition invalid_config :: "(string \<times> json) list" where
  "invalid_config =
    [(''otype'', JString ''FullyFusedMLP''), (''n_input_dims'', JNumber 2),
     (''n_output_dims'', JNumber 2), (''n_neurons'', JNumber 100),
     (''n_hidden_layers'', JNumber 2)]"

definition valid_config :: "(string \<times> json) list" where
  "valid_config =
    [(''otype'', JString ''FullyFusedMLP''), (''n_input_dims'', JNumber 2),
     (''n_output_dims'', JNumber 2), (''n_neurons'', JNumber 64),
     (''n_hidden_layers'', JNumber 2)]"

section \<open>Properties of the declarations\<close>

text \<open>
  C6: WeightUsage is a closed enumeration of exactly the three values Inference, Forward
  and Backward: the three are pairwise different and every WeightUsage value is one of
  them.
\<close>

theorem WeightUsage_closed:
  "(UNIV :: WeightUsage set) = {Inference, Forward, Backward}
   \<and> distinct [Inference, Forward, Backward]
   \<and> card (UNIV :: WeightUsage set) = 3"
proof -
  have u: "(UNIV :: WeightUsage set) = {Inference, Forward, Backward}"
  proof
    show "(UNIV :: WeightUsage set) \<subseteq> {Inference, Forward, Backward}"
    proof
      fix w :: WeightUsage
      show "w \<in> {Inference, Forward, Backward}" by (cases w) simp_all
    qed
  qed simp
  have d: "distinct [Inference, Forward, Backward]" by simp
  have "card {Inference, Forward, Backward} = 3" by simp
  with u d show ?thesis by simp
qed

text \<open>
  C2: Network instantiated at the element type T inherits the differentiable capability
  with the compute type and the parameter and gradient type both equal to T, so the
  interface has no separate caller-visible storage type.
\<close>

theorem Network_base_types:
  "base_class (Network T) = T_DifferentiableObject T T
   \<and> compute_type (base_class (Network T)) = Some T
   \<and> params_type (base_class (Network T)) = Some T
   \<and> compute_type (base_class (Network T)) = params_type (base_class (Network T))"
  by (simp add: Network_def)

text \<open>
  C8: the class Network declares no data member, so none of its members stores a
  WeightUsage value across calls; the one method it declares takes no WeightUsage
  either, so no operation of the class has one to store.
\<close>

theorem Network_holds_no_WeightUsage:
  "data_members (members (Network T)) = []
   \<and> T_WeightUsage \<notin> snd ` set (data_members (members (Network T)))
   \<and> T_WeightUsage \<notin> p_type ` set (method_params (members (Network T)))"
  by (simp add: Network_def inference_mixed_precision_params_def)

text \<open>
  C7: a call of inference_mixed_precision that omits the output layout is bound with
  ColumnMajor; a call may pass RowMajor for the output layout instead; and a call whose
  input matrix has the static layout RowMajor is ill-formed, whatever its other arguments.
\<close>

theorem output_layout_default:
  "bind_arguments (inference_mixed_precision_params T)
       [Stream s, Matrix T ColumnMajor i, Matrix T ColumnMajor out]
     = Some [Stream s, Matrix T ColumnMajor i, Matrix T ColumnMajor out, Layout ColumnMajor]
   \<and> bind_arguments (inference_mixed_precision_params T)
       [Stream s, Matrix T ColumnMajor i, Matrix T ColumnMajor out, Layout RowMajor]
     = Some [Stream s, Matrix T ColumnMajor i, Matrix T ColumnMajor out, Layout RowMajor]
   \<and> bind_arguments (inference_mixed_precision_params T) (a # Matrix T' RowMajor i # rest)
     = None"
  by (simp add: inference_mixed_precision_params_def)

text \<open>
  C9: the output parameter of inference_mixed_precision has the static type
  GPUMatrix<T, ColumnMajor>, and for every requested output layout (RowMajor included) a
  call is well-formed exactly when its output matrix has the static layout ColumnMajor:
  the requested layout travels in the runtime argument only.
\<close>

theorem output_static_layout:
  "map_option p_type (find (\<lambda>p. p_name p = ''output'') (inference_mixed_precision_params T))
     = Some (T_GPUMatrix T ColumnMajor)
   \<and> (bind_arguments (inference_mixed_precision_params T)
        [Stream s, Matrix T ColumnMajor i, Matrix T l out, Layout ol] \<noteq> None)
     = (l = ColumnMajor)"
  by (simp add: inference_mixed_precision_params_def)

section \<open>Properties of the modelled behaviour\<close>

subsection \<open>Writes to device memory\<close>

lemma apply_writes_Nil: "apply_writes [] mem = mem"
  by (simp add: apply_writes_def)

lemma apply_writes_Cons: "apply_writes ((a, v) # ws) mem = apply_writes ws (mem(a := v))"
  by (simp add: apply_writes_def)

lemma apply_writes_outside:
  "a \<notin> fst ` set ws \<Longrightarrow> apply_writes ws mem a = mem a"
proof (induction ws arbitrary: mem)
  case Nil
  then show ?case by (simp add: apply_writes_Nil)
next
  case (Cons w ws)
  obtain b u where w: "w = (b, u)" by (cases w)
  from Cons.prems w have ne: "b \<noteq> a" and out: "a \<notin> fst ` set ws" by auto
  have "apply_writes (w # ws) mem a = apply_writes ws (mem(b := u)) a"
    by (simp only: w apply_writes_Cons)
  also have "\<dots> = (mem(b := u)) a" by (rule Cons.IH [OF out])
  also have "\<dots> = mem a" using ne by simp
  finally show ?case .
qed

lemma apply_writes_inside:
  "distinct (map fst ws) \<Longrightarrow> (a, v) \<in> set ws \<Longrightarrow> apply_writes ws mem a = v"
proof (induction ws arbitrary: mem)
  case Nil
  then show ?case by simp
next
  case (Cons w ws)
  obtain b u where w: "w = (b, u)" by (cases w)
  have step: "apply_writes (w # ws) mem a = apply_writes ws (mem(b := u)) a"
    by (simp only: w apply_writes_Cons)
  show ?case
  proof (cases "(a, v) \<in> set ws")
    case True
    from Cons.prems have "distinct (map fst ws)" by simp
    then have "apply_writes ws (mem(b := u)) a = v" using True by (rule Cons.IH)
    with step show ?thesis by simp
  next
    case False
    with Cons.prems w have e: "b = a" "u = v" by auto
    from Cons.prems w e have "a \<notin> fst ` set ws" by auto
    then have "apply_writes ws (mem(b := u)) a = (mem(b := u)) a"
      by (rule apply_writes_outside)
    also have "\<dots> = v" using e by simp
    finally show ?thesis using step by simp
  qed
qed

subsection \<open>The addresses the output is written at\<close>

lemma length_offsets: "length (offsets l m n) = m * n"
  by (simp add: offsets_def length_concat comp_def sum_list_triv)

lemma element_index_less:
  "i < m \<Longrightarrow> j < n \<Longrightarrow> element_index l m n i j < m * n"
proof (cases l)
  case ColumnMajor
  assume "i < m" "j < n"
  then have "i + j * m < m + j * m" "Suc j \<le> n" by simp_all
  then have "i + j * m < Suc j * m" by simp
  also have "\<dots> \<le> n * m" using \<open>Suc j \<le> n\<close> by (rule mult_le_mono1)
  finally show ?thesis using ColumnMajor by (simp add: mult.commute)
next
  case RowMajor
  assume "i < m" "j < n"
  then have "j + i * n < n + i * n" "Suc i \<le> m" by simp_all
  then have "j + i * n < Suc i * n" by simp
  also have "\<dots> \<le> m * n" using \<open>Suc i \<le> m\<close> by (rule mult_le_mono1)
  finally show ?thesis using RowMajor by simp
qed

lemma element_index_onto:
  assumes "k < m * n"
  shows "\<exists>i j. i < m \<and> j < n \<and> element_index l m n i j = k"
proof (cases l)
  case ColumnMajor
  from assms have m: "0 < m" by (cases m) simp_all
  have "k mod m < m" using m by simp
  moreover have "k div m < n" using assms m by (simp add: less_mult_imp_div_less mult.commute)
  moreover have "element_index l m n (k mod m) (k div m) = k" using ColumnMajor by simp
  ultimately show ?thesis by blast
next
  case RowMajor
  from assms have n: "0 < n" by (cases n) simp_all
  have "k mod n < n" using n by simp
  moreover have "k div n < m" using assms n by (simp add: less_mult_imp_div_less)
  moreover have "element_index l m n (k div n) (k mod n) = k" using RowMajor by simp
  ultimately show ?thesis by blast
qed

lemma set_offsets: "set (offsets l m n) = {0..<m * n}"
proof
  show "set (offsets l m n) \<subseteq> {0..<m * n}"
    by (auto simp: offsets_def element_index_less)
  show "{0..<m * n} \<subseteq> set (offsets l m n)"
  proof
    fix k assume "k \<in> {0..<m * n}"
    then have "k < m * n" by simp
    from element_index_onto[OF this, of l] obtain i j
      where "i < m" "j < n" "element_index l m n i j = k" by blast
    then have "j \<in> {0..<n}" "k \<in> (\<lambda>i. element_index l m n i j) ` {0..<m}" by auto
    then show "k \<in> set (offsets l m n)" unfolding offsets_def by (simp, blast)
  qed
qed

lemma distinct_offsets: "distinct (offsets l m n)"
proof (rule card_distinct)
  show "card (set (offsets l m n)) = length (offsets l m n)"
    by (simp add: set_offsets length_offsets)
qed

lemma writes_addresses:
  "map fst (output_writes net mem input output l)
     = map (\<lambda>k. m_data output + k) (offsets l (m_rows output) (m_cols output))"
  by (simp add: output_writes_def offsets_def map_concat comp_def)

lemma shifted_range: "(\<lambda>k. b + k) ` {0..<N} = {b..<b + (N::nat)}"
  by (simp add: add.commute)

lemma written_addresses: "fst ` set (output_writes net mem input output l) = buffer output"
proof -
  have "fst ` set (output_writes net mem input output l)
          = set (map fst (output_writes net mem input output l))" by simp
  also have "\<dots> = (\<lambda>k. m_data output + k) ` {0..<m_rows output * m_cols output}"
    by (simp only: writes_addresses set_map set_offsets)
  also have "\<dots> = buffer output"
    unfolding buffer_def by (rule shifted_range)
  finally show ?thesis .
qed

lemma distinct_writes: "distinct (map fst (output_writes net mem input output l))"
  by (simp only: writes_addresses) (simp add: distinct_map distinct_offsets)

lemma in_set_concat: "x \<in> set ys \<Longrightarrow> ys \<in> set yss \<Longrightarrow> x \<in> set (concat yss)"
  by auto

lemma write_member:
  assumes "i < m_rows output" "j < m_cols output"
  shows "(m_data output + element_index l (m_rows output) (m_cols output) i j,
    evaluate net (params net) (column mem input j) i) \<in> set (output_writes net mem input output l)"
proof -
  let ?row = "\<lambda>j. map (\<lambda>i.
         (m_data output + element_index l (m_rows output) (m_cols output) i j,
          evaluate net (params net) (column mem input j) i)) [0..<m_rows output]"
  from assms(1) have "i \<in> set [0..<m_rows output]" by simp
  then have "(m_data output + element_index l (m_rows output) (m_cols output) i j,
    evaluate net (params net) (column mem input j) i) \<in> set (?row j)"
    unfolding set_map by (rule rev_image_eqI) (rule refl)
  moreover have "?row j \<in> set (map ?row [0..<m_cols output])"
  proof -
    from assms(2) have "j \<in> set [0..<m_cols output]" by simp
    then have "?row j \<in> ?row ` set [0..<m_cols output]" by (rule imageI)
    then show ?thesis by (simp only: set_map)
  qed
  ultimately have "(m_data output + element_index l (m_rows output) (m_cols output) i j,
    evaluate net (params net) (column mem input j) i) \<in> set (concat (map ?row [0..<m_cols output]))"
    by (rule in_set_concat)
  then show ?thesis unfolding output_writes_def .
qed

lemma inference_result:
  assumes "m_rows input = n_input_dims net" "m_rows output = n_output_dims net"
    "m_cols output = m_cols input"
  shows "inference_mixed_precision net stream input output l mem =
     Inr (net\<lparr>scratch := concat (map (\<lambda>j. activations net (params net) (column mem input j))
              [0..<m_cols input])\<rparr>,
          apply_writes (output_writes net mem input output l) mem)"
  using assms by (simp add: inference_mixed_precision_def)

lemma inference_Inr:
  assumes "inference_mixed_precision net stream input output l mem = Inr (net', mem')"
  shows "net' = net\<lparr>scratch := scratch net'\<rparr>"
    and "mem' = apply_writes (output_writes net mem input output l) mem"
  using assms by (auto simp: inference_mixed_precision_def split: if_splits)

lemma example_columns:
  "column example_memory example_input 0 = [1, 2]"
  "column example_memory example_input 1 = [3, 4]"
  by code_simp+

lemma example_writes:
  "output_writes example_net example_memory example_input example_output RowMajor
     = [(4, 9), (6, 15), (5, 21), (7, 35)]"
  by code_simp+

lemma example_inference:
  "inference_mixed_precision example_net 0 example_input example_output RowMajor example_memory
     = Inr (example_net\<lparr>scratch := [1, 2, 3, 4]\<rparr>,
            example_memory(4 := 9, 6 := 15, 5 := 21, 7 := 35))"
proof -
  have h: "m_rows example_input = n_input_dims example_net"
    "m_rows example_output = n_output_dims example_net"
    "m_cols example_output = m_cols example_input"
    by (simp_all add: example_input_def example_output_def example_net_def)
  have s: "concat (map (\<lambda>j. activations example_net (params example_net)
      (column example_memory example_input j)) [0..<m_cols example_input]) = [1, 2, 3, 4]"
    by code_simp
  show ?thesis
    by (simp only: inference_result [OF h] s example_writes apply_writes_Cons apply_writes_Nil)
qed

lemma inference_frame:
  assumes "inference_mixed_precision net stream input output l mem = Inr (net', mem')"
    and "a \<notin> buffer output"
  shows "mem' a = mem a"
proof -
  have "a \<notin> fst ` set (output_writes net mem input output l)"
    unfolding written_addresses by (rule assms(2))
  then have "apply_writes (output_writes net mem input output l) mem a = mem a"
    by (rule apply_writes_outside)
  with inference_Inr(2) [OF assms(1)] show ?thesis by simp
qed

subsection \<open>Inference\<close>

text \<open>
  C1: when the input has the network's input width, the output has its output width and
  both have the same number of columns, the call succeeds, the addresses it writes are
  exactly those of the output buffer, and after it the element in row i and column j of
  the output, at its place in the requested layout, is the evaluation of input column j,
  whatever the buffer held before. This holds for every requested layout.
\<close>

theorem inference_overwrites_output:
  assumes "m_rows input = n_input_dims net" "m_rows output = n_output_dims net"
    "m_cols output = m_cols input"
  shows "\<exists>net' mem'.
     inference_mixed_precision net stream input output output_layout mem = Inr (net', mem')
     \<and> fst ` set (output_writes net mem input output output_layout) = buffer output
     \<and> (\<forall>i j. i < m_rows output \<and> j < m_cols output \<longrightarrow>
          mem' (m_data output + element_index output_layout (m_rows output) (m_cols output) i j)
            = evaluate net (params net) (column mem input j) i)"
proof -
  let ?ws = "output_writes net mem input output output_layout"
  have "apply_writes ?ws mem
        (m_data output + element_index output_layout (m_rows output) (m_cols output) i j)
      = evaluate net (params net) (column mem input j) i"
    if "i < m_rows output" "j < m_cols output" for i j
    using distinct_writes write_member [OF that] by (rule apply_writes_inside)
  with inference_result [OF assms] written_addresses show ?thesis by blast
qed

theorem inference_overwrites_output_witness:
  "m_rows example_input = n_input_dims example_net
   \<and> m_rows example_output = n_output_dims example_net
   \<and> m_cols example_output = m_cols example_input
   \<and> buffer example_output = {4..<8}
   \<and> fst ` set (output_writes example_net example_memory example_input example_output RowMajor)
       = buffer example_output
   \<and> (\<exists>net' mem'. inference_mixed_precision example_net 0 example_input example_output RowMajor
         example_memory = Inr (net', mem')
       \<and> mem' 4 = 9 \<and> mem' 5 = 21 \<and> mem' 6 = 15 \<and> mem' 7 = 35)"
proof -
  have h: "m_rows example_input = n_input_dims example_net"
    "m_rows example_output = n_output_dims example_net"
    "m_cols example_output = m_cols example_input"
    by (simp_all add: example_input_def example_output_def example_net_def)
  have b: "buffer example_output = {4..<8}" by (simp add: buffer_def example_output_def)
  from inference_overwrites_output [OF h, of 0 RowMajor example_memory]
  have w: "fst ` set (output_writes example_net example_memory example_input example_output RowMajor)
       = buffer example_output" by blast
  show ?thesis using h b w by (simp add: example_inference)
qed

text \<open>
  C4: a call of inference_mixed_precision that returns leaves the parameters and the
  gradients of the instance as they were; of the instance only the scratch state may
  differ, and device memory is unchanged outside the output buffer.
\<close>

theorem inference_mutates_no_parameters:
  assumes "inference_mixed_precision net stream input output output_layout mem = Inr (net', mem')"
  shows "params net' = params net \<and> gradients net' = gradients net
     \<and> net' = net\<lparr>scratch := scratch net'\<rparr>
     \<and> (\<forall>a. a \<notin> buffer output \<longrightarrow> mem' a = mem a)"
proof -
  from inference_Inr(1) [OF assms] have n: "net' = net\<lparr>scratch := scratch net'\<rparr>" .
  have p: "params net' = params net" by (subst n) simp
  have g: "gradients net' = gradients net" by (subst n) simp
  from p g n inference_frame [OF assms] show ?thesis by blast
qed

theorem inference_mutates_no_parameters_witness:
  "inference_mixed_precision example_net 0 example_input example_output RowMajor example_memory
     = Inr (example_net\<lparr>scratch := [1, 2, 3, 4]\<rparr>,
            example_memory(4 := 9, 6 := 15, 5 := 21, 7 := 35))
   \<and> params (example_net\<lparr>scratch := [1, 2, 3, 4]\<rparr>) = params example_net
   \<and> gradients (example_net\<lparr>scratch := [1, 2, 3, 4]\<rparr>) = gradients example_net
   \<and> scratch (example_net\<lparr>scratch := [1, 2, 3, 4]\<rparr>) \<noteq> scratch example_net
   \<and> 3 \<notin> buffer example_output
   \<and> (example_memory(4 := 9, 6 := 15, 5 := 21, 7 := 35)) 3 = example_memory 3"
proof -
  let ?net' = "example_net\<lparr>scratch := [1, 2, 3, 4]\<rparr>"
  let ?mem' = "example_memory(4 := 9, 6 := 15, 5 := 21, 7 := 35)"
  from inference_mutates_no_parameters [OF example_inference]
  have p: "params ?net' = params example_net" "gradients ?net' = gradients example_net"
    and f: "\<forall>a. a \<notin> buffer example_output \<longrightarrow> ?mem' a = example_memory a"
    by blast+
  have s: "scratch ?net' \<noteq> scratch example_net" by (simp add: example_net_def)
  have o: "3 \<notin> buffer example_output" by (simp add: buffer_def example_output_def)
  with f have "?mem' 3 = example_memory 3" by blast
  with example_inference p s o show ?thesis by blast
qed

subsection \<open>Releasing the workspace of a stream\<close>

lemma cuda_free_Inr:
  "a \<in> set (live dev) \<Longrightarrow> cuda_free a dev = Inr (dev\<lparr>live := removeAll a (live dev)\<rparr>)"
  by (simp add: cuda_free_def)

lemma free_all_sound:
  "distinct as \<Longrightarrow> set as \<subseteq> set (live dev) \<Longrightarrow>
   \<exists>dev'. free_all as dev = Inr dev' \<and> workspaces dev' = workspaces dev
      \<and> set (live dev') = set (live dev) - set as"
proof (induction as arbitrary: dev)
  case Nil
  then show ?case by simp
next
  case (Cons a as)
  let ?d = "dev\<lparr>live := removeAll a (live dev)\<rparr>"
  from Cons.prems have a: "a \<in> set (live dev)" and d: "distinct as" and n: "a \<notin> set as"
    and s: "set as \<subseteq> set (live dev)" by simp_all
  from s n have "set as \<subseteq> set (live ?d)" by auto
  from Cons.IH [OF d this] obtain dev' where r: "free_all as ?d = Inr dev'"
    and w: "workspaces dev' = workspaces ?d" and l: "set (live dev') = set (live ?d) - set as"
    by blast
  have "free_all (a # as) dev = Inr dev'" by (simp add: cuda_free_Inr [OF a] r)
  moreover have "workspaces dev' = workspaces dev" using w by simp
  moreover have "set (live dev') = set (live dev) - set (a # as)" using l by auto
  ultimately show ?case by blast
qed

lemma cutlass_free_workspace_empty:
  assumes "workspaces dev stream = []"
  shows "cutlass_free_workspace stream dev = Inr dev"
proof -
  have "(workspaces dev)(stream := []) = workspaces dev" using assms by auto
  then show ?thesis by (simp add: cutlass_free_workspace_def assms)
qed

lemma cutlass_free_workspace_Inr:
  assumes "cutlass_free_workspace stream dev = Inr dev1"
  shows "workspaces dev1 stream = []"
    and "\<exists>dev'. free_all (workspaces dev stream) dev = Inr dev'
            \<and> dev1 = dev'\<lparr>workspaces := (workspaces dev')(stream := [])\<rparr>"
  using assms by (auto simp: cutlass_free_workspace_def split: sum.splits)

lemma free_all_workspaces:
  "free_all as dev = Inr dev' \<Longrightarrow> workspaces dev' = workspaces dev"
proof (induction as arbitrary: dev)
  case Nil
  then show ?case by simp
next
  case (Cons a as)
  from Cons.prems obtain d where c: "cuda_free a dev = Inr d" and r: "free_all as d = Inr dev'"
    by (auto split: sum.splits)
  from c have "workspaces d = workspaces dev" by (auto simp: cuda_free_def split: if_splits)
  with Cons.IH [OF r] show ?case by simp
qed

lemma example_free:
  "cutlass_free_workspace 0 example_device
     = Inr (example_device\<lparr>live := [3, 5], workspaces := (workspaces example_device)(0 := [])\<rparr>)"
  by (simp add: cutlass_free_workspace_def example_device_def cuda_free_def)

text \<open>
  C5: on a stream whose attributed scratch is sound, cutlass_free_workspace succeeds and
  frees exactly the allocations attributed to the stream. Whenever a call succeeds, no
  scratch remains attributed to the stream, the scratch of the other streams stays
  attributed as before, and a second call in succession succeeds too and returns the
  state unchanged, so nothing is freed twice.
\<close>

theorem cutlass_free_workspace_idempotent:
  "(workspace_ok dev stream \<longrightarrow>
      (\<exists>dev1. cutlass_free_workspace stream dev = Inr dev1
         \<and> set (live dev1) = set (live dev) - set (workspaces dev stream)))
   \<and> (cutlass_free_workspace stream dev = Inr dev1 \<longrightarrow>
        workspaces dev1 stream = []
        \<and> (\<forall>s. s \<noteq> stream \<longrightarrow> workspaces dev1 s = workspaces dev s)
        \<and> cutlass_free_workspace stream dev1 = Inr dev1)"
proof (intro conjI impI)
  assume "workspace_ok dev stream"
  then have "distinct (workspaces dev stream)" "set (workspaces dev stream) \<subseteq> set (live dev)"
    by (simp_all add: workspace_ok_def)
  from free_all_sound [OF this] obtain dev' where r: "free_all (workspaces dev stream) dev = Inr dev'"
    and l: "set (live dev') = set (live dev) - set (workspaces dev stream)" by blast
  let ?dev1 = "dev'\<lparr>workspaces := (workspaces dev')(stream := [])\<rparr>"
  have "cutlass_free_workspace stream dev = Inr ?dev1"
    by (simp add: cutlass_free_workspace_def r)
  moreover have "set (live ?dev1) = set (live dev) - set (workspaces dev stream)" using l by simp
  ultimately show "\<exists>dev1. cutlass_free_workspace stream dev = Inr dev1
         \<and> set (live dev1) = set (live dev) - set (workspaces dev stream)" by blast
next
  assume a: "cutlass_free_workspace stream dev = Inr dev1"
  then show e: "workspaces dev1 stream = []" by (rule cutlass_free_workspace_Inr(1))
  then show "cutlass_free_workspace stream dev1 = Inr dev1" by (rule cutlass_free_workspace_empty)
  from cutlass_free_workspace_Inr(2) [OF a] obtain dev'
    where r: "free_all (workspaces dev stream) dev = Inr dev'"
      and d: "dev1 = dev'\<lparr>workspaces := (workspaces dev')(stream := [])\<rparr>" by blast
  from free_all_workspaces [OF r] have "workspaces dev' = workspaces dev" .
  then show "\<forall>s. s \<noteq> stream \<longrightarrow> workspaces dev1 s = workspaces dev s"
    by (subst d) simp
qed

theorem cutlass_free_workspace_idempotent_witness:
  "workspace_ok example_device 0
   \<and> (\<exists>dev1. cutlass_free_workspace 0 example_device = Inr dev1
        \<and> set (live dev1) = set (live example_device) - set (workspaces example_device 0))
   \<and> workspaces example_device 0 = [1, 2]
   \<and> cutlass_free_workspace 0 example_device
     = Inr (example_device\<lparr>live := [3, 5], workspaces := (workspaces example_device)(0 := [])\<rparr>)
   \<and> cutlass_free_workspace 0
       (example_device\<lparr>live := [3, 5], workspaces := (workspaces example_device)(0 := [])\<rparr>)
     = Inr (example_device\<lparr>live := [3, 5], workspaces := (workspaces example_device)(0 := [])\<rparr>)
   \<and> workspaces (example_device\<lparr>live := [3, 5], workspaces := (workspaces example_device)(0 := [])\<rparr>) 1
     = workspaces example_device 1"
proof -
  let ?dev1 = "example_device\<lparr>live := [3, 5], workspaces := (workspaces example_device)(0 := [])\<rparr>"
  note t = cutlass_free_workspace_idempotent [of example_device 0 ?dev1]
  have ok: "workspace_ok example_device 0" by (simp add: workspace_ok_def example_device_def)
  with t have 1: "\<exists>dev1. cutlass_free_workspace 0 example_device = Inr dev1
        \<and> set (live dev1) = set (live example_device) - set (workspaces example_device 0)"
    by blast
  from t example_free have 2: "cutlass_free_workspace 0 ?dev1 = Inr ?dev1"
    and 3: "\<forall>s. s \<noteq> 0 \<longrightarrow> workspaces ?dev1 s = workspaces example_device s" by blast+
  from 3 have 4: "workspaces ?dev1 1 = workspaces example_device 1" by simp
  have 5: "workspaces example_device 0 = [1, 2]" by (simp add: example_device_def)
  from ok 1 5 example_free 2 4 show ?thesis by blast
qed

subsection \<open>Construction from a configuration document\<close>

lemma valid_config_accepted:
  "create_network example_registry valid_config example_device
     = (Inr example_net, allocate example_device)"
  "live (allocate example_device) = [6, 1, 2, 3, 5]"
  by (simp_all add: create_network_def example_registry_def valid_config_def
      example_architecture_def allocate_def example_device_def)

text \<open>
  C3: create_network fails with a ConfigurationError and leaves the accelerator state as
  it was, constructing no instance, when the architecture tag is not in the registry
  (the error names the key otype), when a required hyperparameter is missing (the error
  names a missing required key), and when the hyperparameters are an invalid combination
  (the error names the offending key and the reason the architecture gives).
\<close>

theorem create_network_fails_closed:
  "(map_of network ''otype'' = Some (JString tag) \<and> map_of registry tag = None \<longrightarrow>
      (\<exists>reason. create_network registry network dev
         = (Inl (ConfigurationError ''otype'' reason), dev)))
   \<and> (map_of network ''otype'' = Some (JString tag) \<and> map_of registry tag = Some arch
        \<and> k \<in> set (required_keys arch) \<and> map_of network k = None \<longrightarrow>
      (\<exists>k' reason. k' \<in> set (required_keys arch) \<and> map_of network k' = None
         \<and> create_network registry network dev = (Inl (ConfigurationError k' reason), dev)))
   \<and> (map_of network ''otype'' = Some (JString tag) \<and> map_of registry tag = Some arch
        \<and> (\<forall>k' \<in> set (required_keys arch). map_of network k' \<noteq> None)
        \<and> invalid_combination arch network = Some (k, why) \<longrightarrow>
      create_network registry network dev = (Inl (ConfigurationError k why), dev))"
proof (intro conjI impI)
  assume "map_of network ''otype'' = Some (JString tag) \<and> map_of registry tag = None"
  then show "\<exists>reason. create_network registry network dev
         = (Inl (ConfigurationError ''otype'' reason), dev)"
    by (simp add: create_network_def)
next
  assume a: "map_of network ''otype'' = Some (JString tag) \<and> map_of registry tag = Some arch
        \<and> k \<in> set (required_keys arch) \<and> map_of network k = None"
  then have "find (\<lambda>k. map_of network k = None) (required_keys arch) \<noteq> None"
    by (auto simp: find_None_iff)
  then obtain k' where f: "find (\<lambda>k. map_of network k = None) (required_keys arch) = Some k'"
    by blast
  then have "k' \<in> set (required_keys arch)" "map_of network k' = None"
    by (auto simp: find_Some_iff)
  moreover have "create_network registry network dev
      = (Inl (ConfigurationError k' ''missing required hyperparameter''), dev)"
    using a f by (simp add: create_network_def)
  ultimately show "\<exists>k' reason. k' \<in> set (required_keys arch) \<and> map_of network k' = None
         \<and> create_network registry network dev = (Inl (ConfigurationError k' reason), dev)"
    by blast
next
  assume a: "map_of network ''otype'' = Some (JString tag) \<and> map_of registry tag = Some arch
        \<and> (\<forall>k' \<in> set (required_keys arch). map_of network k' \<noteq> None)
        \<and> invalid_combination arch network = Some (k, why)"
  then have "find (\<lambda>k. map_of network k = None) (required_keys arch) = None"
    by (auto simp: find_None_iff)
  with a show "create_network registry network dev = (Inl (ConfigurationError k why), dev)"
    by (simp add: create_network_def)
qed

theorem create_network_fails_closed_witness:
  "map_of unknown_config ''otype'' = Some (JString ''DoesNotExist'')
   \<and> map_of example_registry ''DoesNotExist'' = None
   \<and> (\<exists>reason. create_network example_registry unknown_config example_device
         = (Inl (ConfigurationError ''otype'' reason), example_device))
   \<and> map_of example_registry ''FullyFusedMLP'' = Some example_architecture
   \<and> ''n_hidden_layers'' \<in> set (required_keys example_architecture)
   \<and> map_of incomplete_config ''n_hidden_layers'' = None
   \<and> (\<exists>k' reason. k' \<in> set (required_keys example_architecture)
         \<and> map_of incomplete_config k' = None
         \<and> create_network example_registry incomplete_config example_device
           = (Inl (ConfigurationError k' reason), example_device))
   \<and> invalid_combination example_architecture invalid_config
       = Some (''n_neurons'', ''unsupported layer width'')
   \<and> create_network example_registry invalid_config example_device
       = (Inl (ConfigurationError ''n_neurons'' ''unsupported layer width''), example_device)"
proof -
  have u: "map_of unknown_config ''otype'' = Some (JString ''DoesNotExist'')"
    "map_of example_registry ''DoesNotExist'' = None"
    by (simp_all add: unknown_config_def example_registry_def)
  have r: "map_of example_registry ''FullyFusedMLP'' = Some example_architecture"
    by (simp add: example_registry_def)
  have m: "map_of incomplete_config ''otype'' = Some (JString ''FullyFusedMLP'')"
    "''n_hidden_layers'' \<in> set (required_keys example_architecture)"
    "map_of incomplete_config ''n_hidden_layers'' = None"
    by (simp_all add: incomplete_config_def example_architecture_def)
  have i: "map_of invalid_config ''otype'' = Some (JString ''FullyFusedMLP'')"
    "\<forall>k' \<in> set (required_keys example_architecture). map_of invalid_config k' \<noteq> None"
    "invalid_combination example_architecture invalid_config
       = Some (''n_neurons'', ''unsupported layer width'')"
    by (simp_all add: invalid_config_def example_architecture_def)
  from u create_network_fails_closed
    [of unknown_config "''DoesNotExist''" example_registry example_device]
  have 1: "\<exists>reason. create_network example_registry unknown_config example_device
         = (Inl (ConfigurationError ''otype'' reason), example_device)" by blast
  from r m create_network_fails_closed
    [of incomplete_config "''FullyFusedMLP''" example_registry example_device
        example_architecture "''n_hidden_layers''"]
  have 2: "\<exists>k' reason. k' \<in> set (required_keys example_architecture)
         \<and> map_of incomplete_config k' = None
         \<and> create_network example_registry incomplete_config example_device
           = (Inl (ConfigurationError k' reason), example_device)" by blast
  from r i create_network_fails_closed
    [of invalid_config "''FullyFusedMLP''" example_registry example_device
        example_architecture "''n_neurons''" "''unsupported layer width''"]
  have 3: "create_network example_registry invalid_config example_device
       = (Inl (ConfigurationError ''n_neurons'' ''unsupported layer width''), example_device)"
    by blast
  from u r m i 1 2 3 show ?thesis by blast
qed

end
